theory Spec2Isabelle
  imports Complex_Main
begin

text \<open>
  A shallow embedding of the two functions of facely that carry its design: the image
  materializer \<^verbatim>\<open>getViewableImages\<close> and the pipeline \<^verbatim>\<open>facely\<close> with its progress
  reports (\<^verbatim>\<open>reportProgress\<close>). Face-landmark prediction, depth estimation, mesh building,
  image loading and the browser are external to these functions and are parameters here.
  \<^verbatim>\<open>console.log\<close> calls are left out.
\<close>

section \<open>JavaScript numbers\<close>

text \<open>
  A JavaScript Number is an IEEE 754 double. A finite Number is kept as the rational it
  denotes, and every arithmetic operation rounds its exact result to the nearest double,
  a tie going to the even significand, overflowing to an infinity; a division by zero
  yields an infinity, or NaN for \<open>0 / 0\<close>. The sign of a zero is not kept: no operand here
  is negative.
\<close>

datatype number = Finite rat | PosInfinity | NegInfinity | NotANumber

text \<open>Powers of two with an integer exponent.\<close>

definition pow2 :: "int \<Rightarrow> rat" where
  "pow2 e = (if 0 \<le> e then 2 ^ nat e else 1 / 2 ^ nat (- e))"

text \<open>The number of binary digits of a natural number.\<close>

fun bit_length :: "nat \<Rightarrow> nat" where
  "bit_length n = (if n = 0 then 0 else Suc (bit_length (n div 2)))"

declare bit_length.simps [simp del]

text \<open>
  The binade of a positive rational \<open>x\<close>: the exponent \<open>k\<close> with \<open>2 ^ k \<le> x < 2 ^ (k + 1)\<close>.
  Below 1 it is read off the integer part \<open>j\<close>-bit reciprocal.
\<close>

definition binade_below :: "rat \<Rightarrow> int \<Rightarrow> int" where
  "binade_below x j = (if pow2 (- j) \<le> x then - j else - j - 1)"

definition binade :: "rat \<Rightarrow> int" where
  "binade x =
     (if 1 \<le> x then int (bit_length (nat \<lfloor>x\<rfloor>)) - 1
      else binade_below x (int (bit_length (nat \<lfloor>1 / x\<rfloor>)) - 1))"

text \<open>The nearest integer, a tie going to the even one.\<close>

definition round_half_even :: "rat \<Rightarrow> int" where
  "round_half_even x =
     (if x - of_int \<lfloor>x\<rfloor> < 1 / 2 then \<lfloor>x\<rfloor>
      else if 1 / 2 < x - of_int \<lfloor>x\<rfloor> then \<lfloor>x\<rfloor> + 1
      else if even \<lfloor>x\<rfloor> then \<lfloor>x\<rfloor> else \<lfloor>x\<rfloor> + 1)"

text \<open>
  Rounding a positive magnitude \<open>a\<close> to a double: the exponent is the binade, but not below
  that of the subnormal numbers; the significand is \<open>a\<close> in units of \<open>2 ^ (e - 52)\<close>, rounded;
  a result of \<open>2 ^ 1024\<close> or more is an overflow (\<open>None\<close>).
\<close>

definition exponent :: "rat \<Rightarrow> int" where
  "exponent a = max (binade a) (- 1022)"

definition significand :: "int \<Rightarrow> rat \<Rightarrow> int" where
  "significand e a = round_half_even (a / pow2 (e - 52))"

definition magnitude :: "int \<Rightarrow> int \<Rightarrow> rat option" where
  "magnitude e m =
     (if 1024 \<le> e \<or> (e = 1023 \<and> m = 2 ^ 53) then None
      else Some (of_int m * pow2 (e - 52)))"

definition round_to_double :: "rat \<Rightarrow> number" where
  "round_to_double x =
     (if x = 0 then Finite 0
      else case magnitude (exponent \<bar>x\<bar>) (significand (exponent \<bar>x\<bar>) \<bar>x\<bar>) of
             None \<Rightarrow> (if 0 < x then PosInfinity else NegInfinity)
           | Some y \<Rightarrow> Finite (if 0 < x then y else - y))"

text \<open>\<^verbatim>\<open>a / b\<close> for two finite operands.\<close>

definition js_div :: "rat \<Rightarrow> rat \<Rightarrow> number" where
  "js_div a b =
     (if b = 0 then (if a = 0 then NotANumber else if 0 < a then PosInfinity else NegInfinity)
      else round_to_double (a / b))"

text \<open>\<^verbatim>\<open>x / y\<close> for any two Numbers.\<close>

fun js_divide :: "number \<Rightarrow> number \<Rightarrow> number" where
  "js_divide (Finite a) (Finite b) = js_div a b"
| "js_divide (Finite a) PosInfinity = Finite 0"
| "js_divide (Finite a) NegInfinity = Finite 0"
| "js_divide PosInfinity (Finite b) = (if b < 0 then NegInfinity else PosInfinity)"
| "js_divide NegInfinity (Finite b) = (if b < 0 then PosInfinity else NegInfinity)"
| "js_divide PosInfinity PosInfinity = NotANumber"
| "js_divide PosInfinity NegInfinity = NotANumber"
| "js_divide NegInfinity PosInfinity = NotANumber"
| "js_divide NegInfinity NegInfinity = NotANumber"
| "js_divide NotANumber y = NotANumber"
| "js_divide (Finite a) NotANumber = NotANumber"
| "js_divide PosInfinity NotANumber = NotANumber"
| "js_divide NegInfinity NotANumber = NotANumber"

text \<open>\<^verbatim>\<open>x * b\<close> for a finite right operand.\<close>

fun js_times :: "number \<Rightarrow> rat \<Rightarrow> number" where
  "js_times (Finite a) b = round_to_double (a * b)"
| "js_times PosInfinity b =
     (if 0 < b then PosInfinity else if b < 0 then NegInfinity else NotANumber)"
| "js_times NegInfinity b =
     (if 0 < b then NegInfinity else if b < 0 then PosInfinity else NotANumber)"
| "js_times NotANumber b = NotANumber"

text \<open>\<^verbatim>\<open>x + b\<close> for a finite right operand.\<close>

fun js_plus :: "number \<Rightarrow> rat \<Rightarrow> number" where
  "js_plus (Finite a) b = round_to_double (a + b)"
| "js_plus PosInfinity b = PosInfinity"
| "js_plus NegInfinity b = NegInfinity"
| "js_plus NotANumber b = NotANumber"

text \<open>
  \<^verbatim>\<open>Math.round\<close>: the integer nearest to the Number, a tie going up; infinities and NaN are
  kept. The result is exact: it is a double whenever the argument is.
\<close>

fun Math_round :: "number \<Rightarrow> number" where
  "Math_round (Finite x) = Finite (of_int \<lfloor>x + 1 / 2\<rfloor>)"
| "Math_round PosInfinity = PosInfinity"
| "Math_round NegInfinity = NegInfinity"
| "Math_round NotANumber = NotANumber"

section \<open>Number to string\<close>

text \<open>
  The template literal \<^verbatim>\<open>`${stage}/${total}`\<close> prints each stage number in decimal.
\<close>

definition digit_char :: "nat \<Rightarrow> char" where
  "digit_char d = ''0123456789'' ! d"

fun show_nat :: "nat \<Rightarrow> string" where
  "show_nat n =
     (if n < 10 then [digit_char n] else show_nat (n div 10) @ [digit_char (n mod 10)])"

declare show_nat.simps [simp del]

definition stage_label :: "nat \<Rightarrow> nat \<Rightarrow> string" where
  "stage_label stage' total' = show_nat stage' @ ''/'' @ show_nat total'"

section \<open>Progress reports\<close>

text \<open>
  \<^verbatim>\<open>reportProgress\<close> returns the object literal \<^verbatim>\<open>{ message, percent, stage }\<close>: three
  fields, the third a string. The stage numbers are integers that a Number holds exactly
  (up to \<open>2 ^ 53\<close>). (The parameters carry a prime: their names are constants of HOL or
  fields of the record.)
\<close>

record report =
  message :: string
  percent :: number
  stage :: string

definition reportProgress :: "nat \<Rightarrow> nat \<Rightarrow> string \<Rightarrow> bool \<Rightarrow> report" where
  "reportProgress stage' total' message' complete' =
     (let percentage =
            Math_round
              (js_times
                 (js_divide
                    (js_plus (js_times (Finite (of_nat stage')) 2) (if complete' then 1 else 0))
                    (js_times (Finite (of_nat total')) 2))
                 100);
          isComplete = (stage' = total')
      in \<lparr> message = message',
           percent = (if isComplete then (if complete' then Finite 100 else Finite 99)
                      else percentage),
           stage = stage_label stage' total' \<rparr>)"

section \<open>Thrown values and the asynchronous run\<close>

text \<open>
  A JavaScript call either returns or throws, and an awaited promise either resolves or
  rejects: both are a value of \<open>'e thrown + 'a\<close>. The thrown value is the engine's own
  \<^verbatim>\<open>TypeError\<close> or whatever value \<open>'e\<close> an external collaborator rejects with.
\<close>

datatype 'e thrown = TypeError string | Rejection 'e

section \<open>Configuration and module constants\<close>

record config =
  pointSize :: number
  pointColor :: string
  outerRingColor :: string
  outerRingWidth :: number
  triangulationColor :: string
  triangulationWidth :: number
  invertDepth :: bool
  scaleFactor :: number
  baseElevation :: number
  minDepth :: number
  maxDepth :: number
  outputDepthRange :: "number list"
  invertDepthMap :: bool
  depthMapFormat :: string

definition targetSceneWidth :: rat where
  "targetSceneWidth = 10"

text \<open>The module-level object \<^verbatim>\<open>config\<close> as the module creates it.\<close>

definition config :: config where
  "config =
     \<lparr> pointSize = Finite 3,
       pointColor = ''purple'',
       outerRingColor = ''orange'',
       outerRingWidth = Finite 3,
       triangulationColor = ''cyan'',
       triangulationWidth = Finite 2,
       invertDepth = True,
       scaleFactor = Finite 1,
       baseElevation = Finite 5,
       minDepth = Finite 0,
       maxDepth = Finite 1,
       outputDepthRange = [Finite 0, Finite 1],
       invertDepthMap = False,
       depthMapFormat = ''image/png'' \<rparr>"

definition overlayTypes :: "string list" where
  "overlayTypes = [''combinedImage'', ''keypointsImage'', ''triangulationImage'', ''outerRingImage'']"

section \<open>The observable trace of a run\<close>

text \<open>
  The pipeline's effects are its calls: of the progress callback, of the external stages, of
  \<^verbatim>\<open>fetch\<close>, and its one assignment to \<^verbatim>\<open>config.scaleFactor\<close>. A run threads a state that
  holds the calls made so far, in order, and the current contents of the \<^verbatim>\<open>config\<close> object.
  A stage that is handed \<^verbatim>\<open>config\<close> is logged with the contents it sees.

  There is one \<^verbatim>\<open>config\<close> object for the whole module, and stages are handed the object
  itself, not a copy. So the contents can change during a call that was handed it: the stage
  can write it, and so can a second run of \<^verbatim>\<open>facely\<close> that starts or resumes while the
  first awaits the stage. What the object holds when such a call is over is a parameter of
  the model (\<open>written\<close> below, \<open>config_written\<close> of the environment).
\<close>

datatype call =
    CreateThreeDScene | CreateObjectURL | LoadImage | ImportPredictions | HandlePredictions
  | GenerateUVTexturedFace | HandleDepthEstimation | GetVerticesMesh | GetEdgesMesh | GetFacesMesh

datatype event =
    Progress report
  | Call call "config option"
  | Fetch string
  | Assign_scaleFactor number

record run_state =
  events :: "event list"
  cfg :: config

type_synonym ('e, 'a) action = "run_state \<Rightarrow> run_state \<times> ('e thrown + 'a)"

definition returns :: "'a \<Rightarrow> ('e, 'a) action" where
  "returns a = (\<lambda>s. (s, Inr a))"

text \<open>Sequencing: a throw or a rejection ends the function, nothing after it runs.\<close>

definition and_then :: "('e, 'a) action \<Rightarrow> ('a \<Rightarrow> ('e, 'b) action) \<Rightarrow> ('e, 'b) action" where
  "and_then m f = (\<lambda>s. case m s of (s', Inl e) \<Rightarrow> (s', Inl e) | (s', Inr a) \<Rightarrow> f a s')"

text \<open>A call of an external function that is not handed \<^verbatim>\<open>config\<close>.\<close>

definition external :: "call \<Rightarrow> 'e thrown + 'a \<Rightarrow> ('e, 'a) action" where
  "external c outcome = (\<lambda>s. (s\<lparr>events := events s @ [Call c None]\<rparr>, outcome))"

text \<open>
  A call of an external function that is handed the \<^verbatim>\<open>config\<close> object: its outcome
  depends on the contents it is handed, and \<open>written\<close> gives the contents the object is left
  with.
\<close>

definition external_config ::
  "call \<Rightarrow> (config \<Rightarrow> config) \<Rightarrow> (config \<Rightarrow> 'e thrown + 'a) \<Rightarrow> ('e, 'a) action" where
  "external_config c written f =
     (\<lambda>s. (s\<lparr>events := events s @ [Call c (Some (cfg s))], cfg := written (cfg s)\<rparr>, f (cfg s)))"

text \<open>\<^verbatim>\<open>config.scaleFactor = v\<close>.\<close>

definition assign_scaleFactor :: "number \<Rightarrow> ('e, unit) action" where
  "assign_scaleFactor v =
     (\<lambda>s. (s\<lparr>events := events s @ [Assign_scaleFactor v], cfg := (cfg s)\<lparr>scaleFactor := v\<rparr>\<rparr>, Inr ()))"

text \<open>
  \<^verbatim>\<open>progress(r)\<close>. The second argument of \<^verbatim>\<open>facely\<close> is \<^verbatim>\<open>undefined\<close> when the caller
  passes none (\<open>None\<close>); calling \<^verbatim>\<open>undefined\<close> throws a \<^verbatim>\<open>TypeError\<close>. A callback that is
  there is invoked, and may itself throw.
\<close>

definition invoke :: "(report \<Rightarrow> 'e thrown + unit) option \<Rightarrow> report \<Rightarrow> ('e, unit) action" where
  "invoke progress r =
     (case progress of
        None \<Rightarrow> (\<lambda>s. (s, Inl (TypeError ''progress is not a function'')))
      | Some callback \<Rightarrow> (\<lambda>s. (s\<lparr>events := events s @ [Progress r]\<rparr>, callback r)))"

section \<open>External collaborators\<close>

text \<open>
  Image loading, prediction, depth estimation, mesh building, the scene and the browser are
  imported by the source, not defined in it: they are parameters of the model, each a
  function of its arguments that returns or throws. \<open>config_written c\<close> maps the contents of
  the \<^verbatim>\<open>config\<close> object handed to the call \<open>c\<close> to the contents it holds when the call is
  over. \<open>'file\<close> is the uploaded \<^verbatim>\<open>File\<close>, \<open>'canvas\<close> an \<^verbatim>\<open>HTMLCanvasElement\<close>,
  \<open>'scene\<close> and \<open>'mesh\<close> what the 3D functions return.

  A visualization bundle is a plain object: \<open>visualizations name\<close> is its own property of
  that name, \<open>None\<close> when it has none. A plain object also inherits the members of
  \<^verbatim>\<open>Object.prototype\<close> (\<^verbatim>\<open>toString\<close>, \<^verbatim>\<open>constructor\<close>, \<^verbatim>\<open>__proto__\<close>, ...), which are
  functions and objects; \<open>Object_prototype name\<close> is the string such a member converts to
  when it is passed to \<^verbatim>\<open>fetch\<close>, \<open>None\<close> when there is no member of that name.
\<close>

record image =
  width :: nat
  height :: nat

type_synonym visualizations = "string \<Rightarrow> string option"

record ('e, 'file, 'canvas, 'scene, 'mesh) env =
  innerWidth :: nat
  innerHeight :: nat
  createElement_canvas :: "'canvas"
  createThreeDScene :: "'canvas \<Rightarrow> number \<Rightarrow> number \<Rightarrow> nat \<Rightarrow> 'e thrown + 'scene"
  createObjectURL :: "'file \<Rightarrow> 'e thrown + string"
  loadImage :: "string \<Rightarrow> 'e thrown + image"
  import_handlePredictions :: "'e thrown + (string \<Rightarrow> config \<Rightarrow> 'e thrown + visualizations)"
  generateUVTexturedFace :: "'scene \<Rightarrow> visualizations \<Rightarrow> image \<Rightarrow> config \<Rightarrow> 'e thrown + 'mesh"
  handleDepthEstimation :: "'file \<Rightarrow> config \<Rightarrow> 'e thrown + 'canvas"
  getVerticesMesh :: "visualizations \<Rightarrow> config \<Rightarrow> 'e thrown + 'mesh"
  getEdgesMesh :: "visualizations \<Rightarrow> config \<Rightarrow> 'e thrown + 'mesh"
  getFacesMesh :: "visualizations \<Rightarrow> config \<Rightarrow> 'e thrown + 'mesh"
  fetch_blob_readAsDataURL :: "string \<Rightarrow> 'e thrown + string"
  toDataURL :: "'canvas \<Rightarrow> string \<Rightarrow> string"
  Object_prototype :: "string \<Rightarrow> string option"
  config_written :: "call \<Rightarrow> config \<Rightarrow> config"

section \<open>getViewableImages\<close>

record viewable_images =
  baseImage :: "string option"
  displacementMap :: "string option"
  overlays :: "string \<Rightarrow> string option"

text \<open>
  JavaScript truthiness of a value that is \<^verbatim>\<open>undefined\<close> or a string: only a non-empty
  string is truthy.
\<close>

definition truthy :: "string option \<Rightarrow> bool" where
  "truthy v = (case v of None \<Rightarrow> False | Some str \<Rightarrow> str \<noteq> [])"

text \<open>
  The inner \<^verbatim>\<open>fetchToDataURL\<close>: \<^verbatim>\<open>fetch\<close>, \<^verbatim>\<open>res.blob()\<close> and a \<^verbatim>\<open>FileReader\<close>; it
  resolves with the reader's result or rejects.
\<close>

definition fetchToDataURL ::
  "('e, 'file, 'canvas, 'scene, 'mesh) env \<Rightarrow> string \<Rightarrow> ('e, string) action" where
  "fetchToDataURL env resource =
     (\<lambda>s. (s\<lparr>events := events s @ [Fetch resource]\<rparr>, fetch_blob_readAsDataURL env resource))"

text \<open>
  \<^verbatim>\<open>visualizations[overlay]\<close>: the own property, else the inherited member, else
  \<^verbatim>\<open>undefined\<close>.
\<close>

datatype js_value = Undefined | Str string | Inherited string

definition get_property ::
  "('e, 'file, 'canvas, 'scene, 'mesh) env \<Rightarrow> visualizations \<Rightarrow> string \<Rightarrow> js_value" where
  "get_property env obj name =
     (case obj name of
        Some v \<Rightarrow> Str v
      | None \<Rightarrow> (case Object_prototype env name of
                   Some member \<Rightarrow> Inherited member
                 | None \<Rightarrow> Undefined))"

text \<open>
  \<^verbatim>\<open>result.overlays[overlay] = dataURL\<close> on the plain object \<^verbatim>\<open>result.overlays\<close>: the
  assignment makes an own property, but for the name \<^verbatim>\<open>__proto__\<close>, whose inherited setter
  ignores a string.
\<close>

definition set_property :: "(string \<Rightarrow> string option) \<Rightarrow> string \<Rightarrow> string \<Rightarrow> (string \<Rightarrow> string option)" where
  "set_property obj name v = (if name = ''__proto__'' then obj else obj(name \<mapsto> v))"

text \<open>
  The loop \<^verbatim>\<open>for (const overlay of overlayTypes)\<close>, on the result built so far. The test
  \<^verbatim>\<open>if (visualizations[overlay])\<close> fails for \<^verbatim>\<open>undefined\<close> and for the empty string; an
  inherited member is a function or an object and passes it.
\<close>

fun overlays_loop ::
  "('e, 'file, 'canvas, 'scene, 'mesh) env \<Rightarrow> visualizations \<Rightarrow> string list \<Rightarrow> viewable_images
     \<Rightarrow> ('e, viewable_images) action" where
  "overlays_loop env visualizations [] result = returns result"
| "overlays_loop env visualizations (overlay # rest) result =
     (case get_property env visualizations overlay of
        Undefined \<Rightarrow> overlays_loop env visualizations rest result
      | Str resource \<Rightarrow>
          if resource = [] then overlays_loop env visualizations rest result
          else and_then (fetchToDataURL env resource) (\<lambda>dataURL.
                 overlays_loop env visualizations rest
                   (result\<lparr>overlays := set_property (overlays result) overlay dataURL\<rparr>))
      | Inherited member \<Rightarrow>
          and_then (fetchToDataURL env member) (\<lambda>dataURL.
            overlays_loop env visualizations rest
              (result\<lparr>overlays := set_property (overlays result) overlay dataURL\<rparr>)))"

definition getViewableImages ::
  "('e, 'file, 'canvas, 'scene, 'mesh) env \<Rightarrow> 'file option \<Rightarrow> string option \<Rightarrow> 'canvas option
     \<Rightarrow> visualizations \<Rightarrow> string list \<Rightarrow> ('e, viewable_images) action" where
  "getViewableImages env imageFile imageUrl depthMapImage visualizations overlayTypes' =
     (let result = \<lparr> baseImage = None, displacementMap = None, overlays = Map.empty \<rparr> in
      and_then
        (case imageFile of
           None \<Rightarrow> returns result
         | Some _ \<Rightarrow>
             (case imageUrl of
                None \<Rightarrow> returns result
              | Some url \<Rightarrow>
                  if url = [] then returns result
                  else and_then (fetchToDataURL env url) (\<lambda>dataURL.
                         returns (result\<lparr>baseImage := Some dataURL\<rparr>))))
        (\<lambda>result.
           let result =
                 (case depthMapImage of
                    None \<Rightarrow> result
                  | Some depthCanvas \<Rightarrow>
                      let depthMapBlobUrl = toDataURL env depthCanvas ''image/png''
                      in result\<lparr>displacementMap := Some depthMapBlobUrl\<rparr>)
           in overlays_loop env visualizations overlayTypes' result))"

section \<open>facely\<close>

text \<open>
  The object \<^verbatim>\<open>facely\<close> returns. Its \<^verbatim>\<open>add\<close> and \<^verbatim>\<open>download\<close> members are closures that
  run only when the caller invokes them after the run; they are left out. The literal
  \<^verbatim>\<open>0.8\<close> is the double \<open>3602879701896397 / 2 ^ 52\<close>.
\<close>

record ('canvas, 'scene, 'mesh) pipeline_result =
  canvas :: "'canvas"
  scene :: "'scene"
  texturedMesh :: "'mesh"
  image' :: viewable_images
  verticesMesh :: "'mesh"
  edgesMesh :: "'mesh"
  facesMesh :: "'mesh"

definition facely ::
  "('e, 'file, 'canvas, 'scene, 'mesh) env \<Rightarrow> 'file \<Rightarrow> (report \<Rightarrow> 'e thrown + unit) option
     \<Rightarrow> ('e, ('canvas, 'scene, 'mesh) pipeline_result) action" where
  "facely env imageFile progress =
     (let stages = 6 in
      and_then (invoke progress (reportProgress 0 stages ''setting up...'' False)) (\<lambda>_.
      let newCanvas = createElement_canvas env in
      and_then (external CreateThreeDScene
                  (createThreeDScene env newCanvas
                     (js_times (Finite (of_nat (innerWidth env))) (3602879701896397 / 4503599627370496))
                     (Finite (of_nat (innerHeight env))) 0x202020)) (\<lambda>newScene.
      and_then (invoke progress (reportProgress 0 stages ''setting up complete!'' True)) (\<lambda>_.
      and_then (invoke progress (reportProgress 1 stages ''uploading...'' False)) (\<lambda>_.
      and_then (external CreateObjectURL (createObjectURL env imageFile)) (\<lambda>imageUrl.
      and_then (invoke progress (reportProgress 1 stages ''uploading complete!'' True)) (\<lambda>_.
      and_then (invoke progress (reportProgress 2 stages ''generating preview...'' False)) (\<lambda>_.
      and_then (external LoadImage (loadImage env imageUrl)) (\<lambda>img.
      let scaleFactor' = js_div targetSceneWidth (of_nat (width img)) in
      and_then (assign_scaleFactor scaleFactor') (\<lambda>_.
      and_then (invoke progress (reportProgress 2 stages ''preview generated!'' True)) (\<lambda>_.
      and_then (invoke progress (reportProgress 3 stages ''making predictions...'' False)) (\<lambda>_.
      and_then (external ImportPredictions (import_handlePredictions env)) (\<lambda>handlePredictions.
      and_then (external_config HandlePredictions (config_written env HandlePredictions)
                  (handlePredictions imageUrl)) (\<lambda>visualizations.
      and_then (invoke progress (reportProgress 3 stages ''predictions complete!'' True)) (\<lambda>_.
      and_then (invoke progress (reportProgress 4 stages ''generating 3D objects...'' False)) (\<lambda>_.
      and_then (external_config GenerateUVTexturedFace (config_written env GenerateUVTexturedFace)
                  (generateUVTexturedFace env newScene visualizations img)) (\<lambda>uvFaceMesh.
      and_then (invoke progress (reportProgress 4 stages ''3D objects generated!'' True)) (\<lambda>_.
      and_then (invoke progress (reportProgress 5 stages ''starting depth estimation...'' False)) (\<lambda>_.
      and_then (external_config HandleDepthEstimation (config_written env HandleDepthEstimation)
                  (handleDepthEstimation env imageFile)) (\<lambda>depthEstimationResult.
      and_then (invoke progress (reportProgress 5 stages ''depth estimation complete!'' True)) (\<lambda>_.
      and_then (invoke progress (reportProgress 6 stages ''reviewing process...'' False)) (\<lambda>_.
      and_then (invoke progress (reportProgress 6 stages ''process complete!'' True)) (\<lambda>_.
      and_then (getViewableImages env (Some imageFile) (Some imageUrl) (Some depthEstimationResult)
                  visualizations overlayTypes) (\<lambda>imagesObject.
      and_then (external_config GetVerticesMesh (config_written env GetVerticesMesh)
                  (getVerticesMesh env visualizations)) (\<lambda>vertices.
      and_then (external_config GetEdgesMesh (config_written env GetEdgesMesh)
                  (getEdgesMesh env visualizations)) (\<lambda>edges.
      and_then (external_config GetFacesMesh (config_written env GetFacesMesh)
                  (getFacesMesh env visualizations)) (\<lambda>faces.
      returns
        \<lparr> canvas = newCanvas,
          scene = newScene,
          texturedMesh = uvFaceMesh,
          image' = imagesObject,
          verticesMesh = vertices,
          edgesMesh = edges,
          facesMesh = faces \<rparr>)))))))))))))))))))))))))))"

text \<open>What a trace holds of each kind, in order.\<close>

fun reports_of :: "event list \<Rightarrow> report list" where
  "reports_of [] = []"
| "reports_of (Progress r # evs) = r # reports_of evs"
| "reports_of (_ # evs) = reports_of evs"

fun calls_of :: "event list \<Rightarrow> call list" where
  "calls_of [] = []"
| "calls_of (Call c _ # evs) = c # calls_of evs"
| "calls_of (_ # evs) = calls_of evs"


fun fetches_of :: "event list \<Rightarrow> string list" where
  "fetches_of [] = []"
| "fetches_of (Fetch u # evs) = u # fetches_of evs"
| "fetches_of (_ # evs) = fetches_of evs"


section \<open>A mocked environment\<close>

text \<open>
  Concrete collaborators on which the theorems below are run: a 512 by 512 portrait, a
  prediction adapter that returns the four overlays, a fetch that always resolves, stages
  that leave \<^verbatim>\<open>config\<close> as it is, and three of the members of \<^verbatim>\<open>Object.prototype\<close>.
\<close>

definition mock_visualizations :: visualizations where
  "mock_visualizations =
     [''combinedImage'' \<mapsto> ''blob:combined'',
      ''keypointsImage'' \<mapsto> ''blob:keypoints'',
      ''triangulationImage'' \<mapsto> ''blob:triangulation'',
      ''outerRingImage'' \<mapsto> ''blob:outerRing'']"

definition mock_env :: "(string, unit, string, unit, string) env" where
  "mock_env =
     \<lparr> innerWidth = 1000,
       innerHeight = 800,
       createElement_canvas = ''canvas'',
       createThreeDScene = (\<lambda>_ _ _ _. Inr ()),
       createObjectURL = (\<lambda>_. Inr ''blob:portrait''),
       loadImage = (\<lambda>_. Inr \<lparr> width = 512, height = 512 \<rparr>),
       import_handlePredictions = Inr (\<lambda>_ _. Inr mock_visualizations),
       generateUVTexturedFace = (\<lambda>_ _ _ _. Inr ''uvFaceMesh''),
       handleDepthEstimation = (\<lambda>_ _. Inr ''depth''),
       getVerticesMesh = (\<lambda>_ _. Inr ''vertices''),
       getEdgesMesh = (\<lambda>_ _. Inr ''edges''),
       getFacesMesh = (\<lambda>_ _. Inr ''faces''),
       fetch_blob_readAsDataURL = (\<lambda>resource. Inr (''data:'' @ resource)),
       toDataURL = (\<lambda>c format. ''data:'' @ format @ '','' @ c),
       Object_prototype =
         [''toString'' \<mapsto> ''function toString() { [native code] }'',
          ''constructor'' \<mapsto> ''function Object() { [native code] }'',
          ''__proto__'' \<mapsto> ''[object Object]''],
       config_written = (\<lambda>c contents. contents) \<rparr>"

text \<open>A progress callback that returns normally.\<close>

definition mock_progress :: "report \<Rightarrow> string thrown + unit" where
  "mock_progress r = Inr ()"



section \<open>Properties of the progress report\<close>

lemma floor_rat_numeral_divide [simp]:
  "\<lfloor>numeral a / numeral b :: rat\<rfloor> = numeral a div numeral b"
  by (metis floor_divide_of_int_eq of_int_numeral)

lemma floor_rat_one_divide [simp]:
  "\<lfloor>1 / numeral b :: rat\<rfloor> = 1 div numeral b"
  by (metis floor_divide_of_int_eq of_int_1 of_int_numeral)

lemma bit_length_zero: "bit_length 0 = 0"
  by (simp add: bit_length.simps)

lemma bit_length_one: "bit_length (Suc 0) = Suc 0"
  by (simp add: bit_length.simps)

lemma bit_length_numeral: "bit_length (numeral k) = Suc (bit_length (numeral k div 2))"
  by (subst bit_length.simps) simp

text \<open>The equations that compute a rounding on numerals.\<close>

lemmas double_eval = js_div_def round_to_double_def magnitude_def significand_def exponent_def
  binade_def binade_below_def pow2_def round_half_even_def
  bit_length_zero bit_length_one bit_length_numeral

text \<open>The doubles of \<open>0.1\<close>, of \<open>10 / 3\<close>, of \<open>0.1 + 0.2\<close> and of \<open>- 1 / 3\<close>.\<close>

lemma double_examples:
  "js_div 1 10 = Finite (3602879701896397 / 36028797018963968)"
  "js_div 10 3 = Finite (7505999378950827 / 2251799813685248)"
  "js_plus (Finite (3602879701896397 / 36028797018963968)) (3602879701896397 / 18014398509481984)
     = Finite (1351079888211149 / 4503599627370496)"
  "round_to_double (- (1 / 3)) = Finite (- (6004799503160661 / 18014398509481984))"
  by (simp_all add: double_eval)

lemma digit_char_eq_iff: "d < 10 \<Longrightarrow> e < 10 \<Longrightarrow> digit_char d = digit_char e \<longleftrightarrow> d = e"
proof -
  assume "d < 10" "e < 10"
  moreover have "distinct ''0123456789''" by simp
  ultimately show ?thesis
    unfolding digit_char_def by (simp add: nth_eq_iff_index_eq)
qed

lemma digit_char_not_slash: "d < 10 \<Longrightarrow> digit_char d \<noteq> CHR ''/''"
proof -
  assume "d < 10"
  then have "digit_char d \<in> set ''0123456789''"
    unfolding digit_char_def by (intro nth_mem) simp
  then show ?thesis by auto
qed

lemma show_nat_not_Nil: "show_nat n \<noteq> []"
  by (subst show_nat.simps) simp

lemma slash_notin_show_nat: "CHR ''/'' \<notin> set (show_nat n)"
proof (induction n rule: show_nat.induct)
  case (1 n)
  show ?case
  proof (cases "n < 10")
    case True
    then show ?thesis using digit_char_not_slash [of n]
      by (subst show_nat.simps) auto
  next
    case False
    then show ?thesis using 1 digit_char_not_slash [of "n mod 10"]
      by (subst show_nat.simps) auto
  qed
qed

lemma show_nat_inj: "show_nat n = show_nat m \<Longrightarrow> n = m"
proof (induction n arbitrary: m rule: show_nat.induct)
  case (1 n)
  show ?case
  proof (cases "n < 10")
    case n: True
    show ?thesis
    proof (cases "m < 10")
      case True
      with n 1(2) show ?thesis
        by (simp add: show_nat.simps [of n] show_nat.simps [of m] digit_char_eq_iff)
    next
      case False
      with n 1(2) show_nat_not_Nil [of "m div 10"] show ?thesis
        by (simp add: show_nat.simps [of n] show_nat.simps [of m])
    qed
  next
    case n: False
    show ?thesis
    proof (cases "m < 10")
      case True
      with n 1(2) show_nat_not_Nil [of "n div 10"] show ?thesis
        by (simp add: show_nat.simps [of n] show_nat.simps [of m])
    next
      case False
      with n 1(2) have "show_nat (n div 10) = show_nat (m div 10)"
        and d: "digit_char (n mod 10) = digit_char (m mod 10)"
        by (simp_all add: show_nat.simps [of n] show_nat.simps [of m])
      with 1(1) n have "n div 10 = m div 10" by blast
      moreover from d have "n mod 10 = m mod 10" by (simp add: digit_char_eq_iff)
      ultimately show ?thesis by (metis div_mult_mod_eq)
    qed
  qed
qed

lemma takeWhile_upto_slash:
  "CHR ''/'' \<notin> set a \<Longrightarrow> takeWhile (\<lambda>c. c \<noteq> CHR ''/'') (a @ ''/'' @ b) = a"
  by (induction a) auto

lemma split_at_slash:
  assumes "CHR ''/'' \<notin> set a" "CHR ''/'' \<notin> set a'" "a @ ''/'' @ b = a' @ ''/'' @ b'"
  shows "a = a' \<and> b = b'"
proof -
  have "a = a'"
    using takeWhile_upto_slash [OF assms(1), of b] takeWhile_upto_slash [OF assms(2), of b'] assms(3)
    by simp
  with assms(3) show ?thesis by simp
qed

lemma stage_label_inj: "stage_label s t = stage_label s' t' \<Longrightarrow> s = s' \<and> t = t'"
  unfolding stage_label_def
  using split_at_slash [OF slash_notin_show_nat slash_notin_show_nat] show_nat_inj by blast

text \<open>
  C1. For every stage index \<open>s\<close> below the total and every completion flag, the percent of the
  report is \<^verbatim>\<open>Math.round(((s * 2 + (c ? 1 : 0)) / (total * 2)) * 100)\<close>, each operation
  being the JavaScript one; at the final stage (\<open>s = total\<close>) it is 99 when the flag is false
  and 100 when the flag is true. The stage numbers are integers a Number holds exactly. For
  the six stages of the pipeline the percent is also the exact quotient, rounded.
\<close>

theorem reportProgress_percent:
  "(totl \<le> 2 ^ 53 \<longrightarrow>
      (s < totl \<longrightarrow>
         percent (reportProgress s totl msg c) =
           Math_round
             (js_times
                (js_divide
                   (js_plus (js_times (Finite (of_nat s)) 2) (if c then 1 else 0))
                   (js_times (Finite (of_nat totl)) 2))
                100))
      \<and> percent (reportProgress totl totl msg c) = (if c then Finite 100 else Finite 99))
   \<and> (s < 6 \<longrightarrow>
        percent (reportProgress s 6 msg c) =
          Finite (of_int (round (((of_nat s * 2 + (if c then 1 else 0)) / (6 * 2)) * 100 :: rat))))"
proof (intro conjI impI)
  assume "s < totl"
  then show "percent (reportProgress s totl msg c) =
           Math_round
             (js_times
                (js_divide
                   (js_plus (js_times (Finite (of_nat s)) 2) (if c then 1 else 0))
                   (js_times (Finite (of_nat totl)) 2))
                100)"
    by (simp add: reportProgress_def Let_def)
next
  show "percent (reportProgress totl totl msg c) = (if c then Finite 100 else Finite 99)"
    by (simp add: reportProgress_def Let_def)
next
  assume "s < 6"
  then consider "s = 0" | "s = 1" | "s = 2" | "s = 3" | "s = 4" | "s = 5"
    by linarith
  then show "percent (reportProgress s 6 msg c) =
          Finite (of_int (round (((of_nat s * 2 + (if c then 1 else 0)) / (6 * 2)) * 100 :: rat)))"
    by cases (simp_all add: reportProgress_def double_eval round_def)
qed

theorem reportProgress_percent_witness:
  "(20::nat) \<le> 2 ^ 53 \<and> (11::nat) < 20
   \<and> percent (reportProgress 11 20 ''working'' True) = Finite 57
   \<and> (2::nat) < 6
   \<and> percent (reportProgress 2 6 ''generating preview...'' False) = Finite 33
   \<and> percent (reportProgress 2 6 ''preview generated!'' True) = Finite 42
   \<and> percent (reportProgress 6 6 ''process complete!'' True) = Finite 100"
proof -
  have a: "percent (reportProgress 11 20 ''working'' True) = Finite 57"
    using reportProgress_percent [of 20 11 "''working''" True]
    by (simp add: double_eval)
  have b: "percent (reportProgress 2 6 ''generating preview...'' False) = Finite 33"
    using reportProgress_percent [of 6 2 "''generating preview...''" False]
    by (simp add: round_def double_eval)
  have c: "percent (reportProgress 2 6 ''preview generated!'' True) = Finite 42"
    using reportProgress_percent [of 6 2 "''preview generated!''" True]
    by (simp add: round_def double_eval)
  have d: "percent (reportProgress 6 6 ''process complete!'' True) = Finite 100"
    using reportProgress_percent [of 6 6 "''process complete!''" True]
    by simp
  from a b c d show ?thesis by simp
qed

section \<open>Properties of getViewableImages\<close>

lemma truthy_iff: "truthy v \<longleftrightarrow> (\<exists>str. v = Some str \<and> str \<noteq> [])"
  by (cases v) (simp_all add: truthy_def)

lemma get_property_own:
  "Object_prototype env k = None \<Longrightarrow>
     get_property env vis k = (case vis k of None \<Rightarrow> Undefined | Some v \<Rightarrow> Str v)"
  by (simp add: get_property_def split: option.splits)

lemma overlays_loop_preserved:
  "overlays_loop env vis ots r s = (s', Inr r') \<Longrightarrow>
     baseImage r' = baseImage r \<and> displacementMap r' = displacementMap r"
proof (induction ots arbitrary: r s)
  case Nil
  then show ?case by (simp add: returns_def)
next
  case (Cons k ots)
  show ?case
  proof (cases "get_property env vis k")
    case Undefined
    with Cons show ?thesis by simp
  next
    case (Str res)
    show ?thesis
    proof (cases "res = []")
      case True
      with Str Cons show ?thesis by simp
    next
      case False
      with Cons.prems Str obtain s1 d where
        "overlays_loop env vis ots (r\<lparr>overlays := set_property (overlays r) k d\<rparr>) s1 = (s', Inr r')"
        by (auto simp: and_then_def fetchToDataURL_def split: sum.splits prod.splits)
      from Cons.IH [OF this] show ?thesis by simp
    qed
  next
    case (Inherited member)
    with Cons.prems obtain s1 d where
      "overlays_loop env vis ots (r\<lparr>overlays := set_property (overlays r) k d\<rparr>) s1 = (s', Inr r')"
      by (auto simp: and_then_def fetchToDataURL_def split: sum.splits prod.splits)
    from Cons.IH [OF this] show ?thesis by simp
  qed
qed

lemma overlays_loop_skip:
  assumes "Object_prototype env k = None" "\<not> truthy (vis k)"
  shows "overlays_loop env vis (k # ots) r = overlays_loop env vis ots r"
  using assms by (auto simp: get_property_own truthy_def split: option.splits)

lemma overlays_loop_dom:
  assumes "\<forall>k \<in> set ots. Object_prototype env k = None \<and> k \<noteq> ''__proto__''"
    and "overlays_loop env vis ots r s = (s', Inr r')"
  shows "dom (overlays r') = dom (overlays r) \<union> {k \<in> set ots. truthy (vis k)}"
  using assms
proof (induction ots arbitrary: r s)
  case Nil
  then show ?case by (simp add: returns_def)
next
  case (Cons k ots)
  from Cons.prems(1) have own: "Object_prototype env k = None" and name: "k \<noteq> ''__proto__''"
    and rest: "\<forall>k \<in> set ots. Object_prototype env k = None \<and> k \<noteq> ''__proto__''"
    by simp_all
  show ?case
  proof (cases "truthy (vis k)")
    case False
    with Cons.prems(2) overlays_loop_skip [where vis = vis, OF own False]
    have "overlays_loop env vis ots r s = (s', Inr r')" by simp
    from Cons.IH [OF rest this] False show ?thesis by auto
  next
    case True
    then obtain res where res: "vis k = Some res" "res \<noteq> []"
      by (auto simp: truthy_iff)
    from Cons.prems(2) res own obtain s1 d where
      "overlays_loop env vis ots (r\<lparr>overlays := set_property (overlays r) k d\<rparr>) s1 = (s', Inr r')"
      by (auto simp: get_property_own and_then_def fetchToDataURL_def split: sum.splits prod.splits)
    from Cons.IH [OF rest this] True name show ?thesis
      by (auto simp: set_property_def split: if_splits)
  qed
qed

lemma overlays_loop_filter:
  assumes "\<forall>k \<in> set ots. Object_prototype env k = None"
  shows "overlays_loop env vis ots r = overlays_loop env vis (filter (\<lambda>k. truthy (vis k)) ots) r"
  using assms
proof (induction ots arbitrary: r)
  case Nil
  then show ?case by simp
next
  case (Cons k ots)
  then have own: "Object_prototype env k = None"
    and rest: "\<forall>k \<in> set ots. Object_prototype env k = None"
    by simp_all
  show ?case
  proof (cases "truthy (vis k)")
    case False
    with overlays_loop_skip [where vis = vis, OF own False] Cons.IH [OF rest] show ?thesis by simp
  next
    case True
    then obtain res where res: "vis k = Some res" "res \<noteq> []"
      by (auto simp: truthy_iff)
    with True own Cons.IH [OF rest] show ?thesis
      by (simp add: get_property_own)
  qed
qed

lemma overlays_loop_genuine:
  assumes "\<forall>k \<in> set ots. Object_prototype env k = None"
    and "overlays_loop env vis ots r s = (s', Inr r')" and "overlays r' k = Some v"
  shows "overlays r k = Some v
     \<or> (\<exists>res. k \<in> set ots \<and> vis k = Some res \<and> res \<noteq> [] \<and> fetch_blob_readAsDataURL env res = Inr v)"
  using assms
proof (induction ots arbitrary: r s)
  case Nil
  then show ?case by (simp add: returns_def)
next
  case (Cons k' ots)
  from Cons.prems(1) have own: "Object_prototype env k' = None"
    and rest: "\<forall>k \<in> set ots. Object_prototype env k = None"
    by simp_all
  show ?case
  proof (cases "truthy (vis k')")
    case False
    with Cons.prems(2) overlays_loop_skip [where vis = vis, OF own False]
    have "overlays_loop env vis ots r s = (s', Inr r')" by simp
    from Cons.IH [OF rest this Cons.prems(3)] show ?thesis by auto
  next
    case True
    then obtain res where res: "vis k' = Some res" "res \<noteq> []"
      by (auto simp: truthy_iff)
    from Cons.prems(2) res own obtain s1 d where d: "fetch_blob_readAsDataURL env res = Inr d" and
      "overlays_loop env vis ots (r\<lparr>overlays := set_property (overlays r) k' d\<rparr>) s1 = (s', Inr r')"
      by (auto simp: get_property_own and_then_def fetchToDataURL_def split: sum.splits prod.splits)
    from Cons.IH [OF rest this(2) Cons.prems(3)] d res show ?thesis
      by (auto simp: set_property_def split: if_splits)
  qed
qed

lemma overlays_loop_state:
  "fst (overlays_loop env vis ots r s) = fst (overlays_loop env vis ots r0 s)"
proof (induction ots arbitrary: r r0 s)
  case Nil
  then show ?case by (simp add: returns_def)
next
  case (Cons k ots)
  then show ?case
    by (cases "get_property env vis k")
       (auto simp: and_then_def fetchToDataURL_def split: sum.splits prod.splits)
qed

lemma getViewableImages_unfold:
  "getViewableImages env f u d vis ots s =
     (if f \<noteq> None \<and> truthy u then
        (case fetch_blob_readAsDataURL env (the u) of
           Inl e \<Rightarrow> (s\<lparr>events := events s @ [Fetch (the u)]\<rparr>, Inl e)
         | Inr dataURL \<Rightarrow>
             overlays_loop env vis ots
               \<lparr> baseImage = Some dataURL,
                 displacementMap = map_option (\<lambda>c. toDataURL env c ''image/png'') d,
                 overlays = Map.empty \<rparr>
               (s\<lparr>events := events s @ [Fetch (the u)]\<rparr>))
      else
        overlays_loop env vis ots
          \<lparr> baseImage = None,
            displacementMap = map_option (\<lambda>c. toDataURL env c ''image/png'') d,
            overlays = Map.empty \<rparr> s)"
  by (cases f; cases u; cases d)
     (auto simp: getViewableImages_def Let_def and_then_def returns_def fetchToDataURL_def truthy_def
           split: sum.splits)

text \<open>
  C5 as stated does not hold. A requested name whose entry in the bundle holds the empty
  string is in the request and in the bundle, and gets no entry. (And, by an oversight of
  the lookup, a requested name that the bundle does not have but every plain object
  inherits, such as \<^verbatim>\<open>toString\<close>, is fetched and gets an entry.)
\<close>

theorem getViewableImages_overlays_counterexample:
  "getViewableImages mock_env None None None [''combinedImage'' \<mapsto> ''''] [''combinedImage'']
      \<lparr> events = [], cfg = config \<rparr>
    = (\<lparr> events = [], cfg = config \<rparr>,
       Inr \<lparr> baseImage = None, displacementMap = None, overlays = Map.empty \<rparr>)
   \<and> ''combinedImage'' \<in> set [''combinedImage''] \<inter> dom [''combinedImage'' \<mapsto> '''']
   \<and> getViewableImages mock_env None None None Map.empty [''toString'']
        \<lparr> events = [], cfg = config \<rparr>
      = (\<lparr> events = [Fetch ''function toString() { [native code] }''], cfg = config \<rparr>,
         Inr \<lparr> baseImage = None, displacementMap = None,
                overlays = [''toString'' \<mapsto> ''data:function toString() { [native code] }''] \<rparr>)"
  by (simp add: getViewableImages_def and_then_def returns_def fetchToDataURL_def get_property_def
        set_property_def mock_env_def)

text \<open>
  C5, amended. Let no requested name be one that plain objects inherit. Then the overlays
  map of a returned result has an entry for exactly the requested names whose entry in the
  bundle is truthy (there, and not the empty string), and each entry is what the fetch of
  the bundle's resource resolved with, never a made-up value. The other requested names are
  skipped silently: the function behaves, on every input and in every effect and outcome,
  as if they had not been requested, so they cause no error.
\<close>

theorem getViewableImages_overlays:
  "(\<forall>k \<in> set ots. Object_prototype env k = None \<and> k \<noteq> ''__proto__'') \<longrightarrow>
     (\<forall>s' r. getViewableImages env f u d vis ots s = (s', Inr r) \<longrightarrow>
         dom (overlays r) = {k \<in> set ots. truthy (vis k)}
         \<and> (\<forall>k v. overlays r k = Some v \<longrightarrow>
               (\<exists>res. vis k = Some res \<and> fetch_blob_readAsDataURL env res = Inr v)))
     \<and> getViewableImages env f u d vis ots
         = getViewableImages env f u d vis (filter (\<lambda>k. truthy (vis k)) ots)"
proof (intro conjI allI impI)
  fix s' r
  assume names: "\<forall>k \<in> set ots. Object_prototype env k = None \<and> k \<noteq> ''__proto__''"
  then have own: "\<forall>k \<in> set ots. Object_prototype env k = None" by simp
  assume run: "getViewableImages env f u d vis ots s = (s', Inr r)"
  then obtain r0 s0 where loop: "overlays_loop env vis ots r0 s0 = (s', Inr r)"
    and empty: "overlays r0 = Map.empty"
    unfolding getViewableImages_unfold
    by (cases "f \<noteq> None \<and> truthy u"; cases "fetch_blob_readAsDataURL env (the u)") auto
  from overlays_loop_dom [OF names loop] empty
  show "dom (overlays r) = {k \<in> set ots. truthy (vis k)}" by simp
  fix k v
  assume "overlays r k = Some v"
  with overlays_loop_genuine [OF own loop this] empty
  show "\<exists>res. vis k = Some res \<and> fetch_blob_readAsDataURL env res = Inr v" by auto
next
  assume "\<forall>k \<in> set ots. Object_prototype env k = None \<and> k \<noteq> ''__proto__''"
  then have own: "\<forall>k \<in> set ots. Object_prototype env k = None" by simp
  show "getViewableImages env f u d vis ots
          = getViewableImages env f u d vis (filter (\<lambda>k. truthy (vis k)) ots)"
    unfolding getViewableImages_def Let_def
    using overlays_loop_filter [OF own, of vis] by simp
qed

theorem getViewableImages_overlays_witness:
  "Object_prototype mock_env ''combinedImage'' = None
   \<and> Object_prototype mock_env ''keypointsImage'' = None
   \<and> Object_prototype mock_env ''outerRingImage'' = None
   \<and> getViewableImages mock_env (Some ()) (Some ''blob:portrait'') (Some ''depth'')
      [''combinedImage'' \<mapsto> ''blob:combined'', ''keypointsImage'' \<mapsto> '''']
      [''combinedImage'', ''keypointsImage'', ''outerRingImage'']
      \<lparr> events = [], cfg = config \<rparr>
    = (\<lparr> events = [Fetch ''blob:portrait'', Fetch ''blob:combined''], cfg = config \<rparr>,
       Inr \<lparr> baseImage = Some ''data:blob:portrait'',
              displacementMap = Some ''data:image/png,depth'',
              overlays = [''combinedImage'' \<mapsto> ''data:blob:combined''] \<rparr>)
   \<and> dom [''combinedImage'' \<mapsto> ''data:blob:combined''] = {''combinedImage''}"
proof -
  let ?vis = "[''combinedImage'' \<mapsto> ''blob:combined'', ''keypointsImage'' \<mapsto> '''']"
  let ?ots = "[''combinedImage'', ''keypointsImage'', ''outerRingImage'']"
  let ?s = "\<lparr> events = [], cfg = config \<rparr>"
  have names: "\<forall>k \<in> set ?ots. Object_prototype mock_env k = None \<and> k \<noteq> ''__proto__''"
    by (simp add: mock_env_def)
  have run: "getViewableImages mock_env (Some ()) (Some ''blob:portrait'') (Some ''depth'') ?vis ?ots ?s
    = (\<lparr> events = [Fetch ''blob:portrait'', Fetch ''blob:combined''], cfg = config \<rparr>,
       Inr \<lparr> baseImage = Some ''data:blob:portrait'',
              displacementMap = Some ''data:image/png,depth'',
              overlays = [''combinedImage'' \<mapsto> ''data:blob:combined''] \<rparr>)"
    by (simp add: getViewableImages_def and_then_def returns_def fetchToDataURL_def get_property_def
          set_property_def mock_env_def)
  from names run
    getViewableImages_overlays
      [of ?ots mock_env "Some ()" "Some ''blob:portrait''" "Some ''depth''" ?vis ?s]
  have "dom (overlays \<lparr> baseImage = Some ''data:blob:portrait'',
                          displacementMap = Some ''data:image/png,depth'',
                          overlays = [''combinedImage'' \<mapsto> ''data:blob:combined''] \<rparr>)
          = {k \<in> set ?ots. truthy (?vis k)}"
    by blast
  then have "dom [''combinedImage'' \<mapsto> ''data:blob:combined''] = {k \<in> set ?ots. truthy (?vis k)}"
    by simp
  also have "\<dots> = {''combinedImage''}"
    by (auto simp: truthy_def)
  finally have dom: "dom [''combinedImage'' \<mapsto> ''data:blob:combined''] = {''combinedImage''}" .
  have "Object_prototype mock_env ''combinedImage'' = None"
    "Object_prototype mock_env ''keypointsImage'' = None"
    "Object_prototype mock_env ''outerRingImage'' = None"
    using names by simp_all
  with run dom show ?thesis by blast
qed

text \<open>
  C9. The baseImage field of a returned result is filled, with what the fetch of the image URL
  resolved with, only when the image file and the image URL are both truthy. When either is
  missing, baseImage stays null and the step does nothing at all: the function behaves as if
  both were missing, and with no overlay requested it returns without an error and without
  any call.
\<close>

theorem getViewableImages_baseImage:
  "(\<forall>s' r. getViewableImages env f u d vis ots s = (s', Inr r) \<longrightarrow>
      (if f \<noteq> None \<and> truthy u
       then \<exists>url dataURL. u = Some url \<and> fetch_blob_readAsDataURL env url = Inr dataURL
              \<and> baseImage r = Some dataURL
       else baseImage r = None))
   \<and> (\<not> (f \<noteq> None \<and> truthy u) \<longrightarrow>
        getViewableImages env f u d vis ots = getViewableImages env None None d vis ots
        \<and> getViewableImages env f u d vis [] s =
            (s, Inr \<lparr> baseImage = None,
                      displacementMap = map_option (\<lambda>c. toDataURL env c ''image/png'') d,
                      overlays = Map.empty \<rparr>))"
proof (intro conjI allI impI)
  fix s' r
  assume run: "getViewableImages env f u d vis ots s = (s', Inr r)"
  show "if f \<noteq> None \<and> truthy u
        then \<exists>url dataURL. u = Some url \<and> fetch_blob_readAsDataURL env url = Inr dataURL
               \<and> baseImage r = Some dataURL
        else baseImage r = None"
  proof (cases "f \<noteq> None \<and> truthy u")
    case True
    then obtain url where url: "u = Some url" by (auto simp: truthy_iff)
    from run True url obtain dataURL r0 s0 where
      "fetch_blob_readAsDataURL env url = Inr dataURL"
      "overlays_loop env vis ots r0 s0 = (s', Inr r)" "baseImage r0 = Some dataURL"
      unfolding getViewableImages_unfold by (cases "fetch_blob_readAsDataURL env url") auto
    with overlays_loop_preserved [OF this(2)] True url show ?thesis by auto
  next
    case False
    with run obtain r0 where
      "overlays_loop env vis ots r0 s = (s', Inr r)" "baseImage r0 = None"
      unfolding getViewableImages_unfold by auto
    with overlays_loop_preserved [OF this(1)] False show ?thesis by auto
  qed
next
  assume "\<not> (f \<noteq> None \<and> truthy u)"
  then show "getViewableImages env f u d vis ots = getViewableImages env None None d vis ots"
    by (intro ext) (auto simp: getViewableImages_unfold)
next
  assume "\<not> (f \<noteq> None \<and> truthy u)"
  then show "getViewableImages env f u d vis [] s =
            (s, Inr \<lparr> baseImage = None,
                      displacementMap = map_option (\<lambda>c. toDataURL env c ''image/png'') d,
                      overlays = Map.empty \<rparr>)"
    by (auto simp: getViewableImages_unfold returns_def)
qed

theorem getViewableImages_baseImage_witness:
  "getViewableImages mock_env (Some ()) (Some ''blob:portrait'') None mock_visualizations []
      \<lparr> events = [], cfg = config \<rparr>
    = (\<lparr> events = [Fetch ''blob:portrait''], cfg = config \<rparr>,
       Inr \<lparr> baseImage = Some ''data:blob:portrait'', displacementMap = None,
              overlays = Map.empty \<rparr>)
   \<and> \<not> (Some () \<noteq> None \<and> truthy (Some []))
   \<and> getViewableImages mock_env (Some ()) (Some []) None mock_visualizations []
        \<lparr> events = [], cfg = config \<rparr>
      = (\<lparr> events = [], cfg = config \<rparr>,
         Inr \<lparr> baseImage = None, displacementMap = None, overlays = Map.empty \<rparr>)"
proof -
  let ?s = "\<lparr> events = [], cfg = config \<rparr>"
  have run: "getViewableImages mock_env (Some ()) (Some ''blob:portrait'') None mock_visualizations [] ?s
    = (\<lparr> events = [Fetch ''blob:portrait''], cfg = config \<rparr>,
       Inr \<lparr> baseImage = Some ''data:blob:portrait'', displacementMap = None,
              overlays = Map.empty \<rparr>)"
    by (simp add: getViewableImages_def and_then_def returns_def fetchToDataURL_def mock_env_def)
  have missing: "\<not> (Some () \<noteq> None \<and> truthy (Some []))"
    by (simp add: truthy_def)
  have "getViewableImages mock_env (Some ()) (Some []) None mock_visualizations [] ?s
    = (?s, Inr \<lparr> baseImage = None,
                   displacementMap = map_option (\<lambda>c. toDataURL mock_env c ''image/png'') None,
                   overlays = Map.empty \<rparr>)"
    using missing
      getViewableImages_baseImage
        [of mock_env "Some ()" "Some []" None mock_visualizations "[]" ?s]
    by blast
  then have skipped: "getViewableImages mock_env (Some ()) (Some []) None mock_visualizations [] ?s
    = (?s, Inr \<lparr> baseImage = None, displacementMap = None, overlays = Map.empty \<rparr>)"
    by simp
  from run missing skipped show ?thesis by blast
qed

text \<open>
  C10. When the depth-map surface is absent, the displacementMap field of a returned result
  is null; when it is present, the field is the surface's own PNG data URL. The depth map
  adds no fetch: the calls made, and the state they leave, are those of the same call
  without a depth map.
\<close>

theorem getViewableImages_displacementMap:
  "(\<forall>s' r. getViewableImages env f u d vis ots s = (s', Inr r) \<longrightarrow>
      displacementMap r
        = (case d of None \<Rightarrow> None | Some depthCanvas \<Rightarrow> Some (toDataURL env depthCanvas ''image/png'')))
   \<and> fst (getViewableImages env f u d vis ots s) = fst (getViewableImages env f u None vis ots s)"
proof (intro conjI allI impI)
  fix s' r
  assume run: "getViewableImages env f u d vis ots s = (s', Inr r)"
  then obtain r0 s0 where loop: "overlays_loop env vis ots r0 s0 = (s', Inr r)"
    and r0: "displacementMap r0 = map_option (\<lambda>c. toDataURL env c ''image/png'') d"
    unfolding getViewableImages_unfold
    by (cases "f \<noteq> None \<and> truthy u"; cases "fetch_blob_readAsDataURL env (the u)") auto
  from overlays_loop_preserved [OF loop] r0
  show "displacementMap r
        = (case d of None \<Rightarrow> None | Some depthCanvas \<Rightarrow> Some (toDataURL env depthCanvas ''image/png''))"
    by (cases d) simp_all
next
  show "fst (getViewableImages env f u d vis ots s) = fst (getViewableImages env f u None vis ots s)"
    unfolding getViewableImages_unfold
    by (cases "fetch_blob_readAsDataURL env (the u)") (auto intro: overlays_loop_state)
qed


theorem getViewableImages_displacementMap_witness:
  "getViewableImages mock_env None None (Some ''depth'') mock_visualizations []
      \<lparr> events = [], cfg = config \<rparr>
    = (\<lparr> events = [], cfg = config \<rparr>,
       Inr \<lparr> baseImage = None, displacementMap = Some ''data:image/png,depth'',
              overlays = Map.empty \<rparr>)
   \<and> fst (getViewableImages mock_env None None None mock_visualizations []
            \<lparr> events = [], cfg = config \<rparr>)
      = \<lparr> events = [], cfg = config \<rparr>"
proof -
  let ?s = "\<lparr> events = [], cfg = config \<rparr>"
  have run: "getViewableImages mock_env None None (Some ''depth'') mock_visualizations [] ?s
    = (?s, Inr \<lparr> baseImage = None, displacementMap = Some ''data:image/png,depth'',
                   overlays = Map.empty \<rparr>)"
    by (simp add: getViewableImages_def and_then_def returns_def mock_env_def)
  from run
    getViewableImages_displacementMap
      [of mock_env None None "Some ''depth''" mock_visualizations "[]" ?s]
  show ?thesis by simp
qed

section \<open>Properties of facely\<close>

lemma and_then_Inr:
  "and_then m f s = (s', Inr b) \<longleftrightarrow> (\<exists>s1 a. m s = (s1, Inr a) \<and> f a s1 = (s', Inr b))"
  by (auto simp: and_then_def split: prod.splits sum.splits)

lemma invoke_Inr:
  "invoke progress r s = (s1, Inr x) \<longleftrightarrow>
     (\<exists>callback. progress = Some callback \<and> callback r = Inr x
        \<and> s1 = s\<lparr>events := events s @ [Progress r]\<rparr>)"
  by (cases progress) (auto simp: invoke_def)

lemma external_Inr:
  "external c outcome s = (s1, Inr a) \<longleftrightarrow>
     outcome = Inr a \<and> s1 = s\<lparr>events := events s @ [Call c None]\<rparr>"
  by (auto simp: external_def)

lemma external_config_Inr:
  "external_config c written f s = (s1, Inr a) \<longleftrightarrow>
     f (cfg s) = Inr a
     \<and> s1 = s\<lparr>events := events s @ [Call c (Some (cfg s))], cfg := written (cfg s)\<rparr>"
  by (auto simp: external_config_def)

lemma assign_scaleFactor_Inr:
  "assign_scaleFactor v s = (s1, Inr a) \<longleftrightarrow>
     s1 = s\<lparr>events := events s @ [Assign_scaleFactor v], cfg := (cfg s)\<lparr>scaleFactor := v\<rparr>\<rparr>"
  by (auto simp: assign_scaleFactor_def)

lemma returns_Inr: "returns a s = (s1, Inr b) \<longleftrightarrow> s1 = s \<and> b = a"
  by (auto simp: returns_def)

lemma fetchToDataURL_frame:
  "fetchToDataURL env resource s = (s1, outcome) \<Longrightarrow>
     s1 = s\<lparr>events := events s @ [Fetch resource]\<rparr>"
  by (auto simp: fetchToDataURL_def)

lemma overlays_loop_frame:
  "overlays_loop env vis ots r s = (s', outcome) \<Longrightarrow>
     \<exists>fs. events s' = events s @ map Fetch fs \<and> cfg s' = cfg s"
proof (induction ots arbitrary: r s)
  case Nil
  then show ?case by (auto simp: returns_def)
next
  case (Cons k ots)
  have fetched: "\<exists>fs. events s' = events s @ map Fetch fs \<and> cfg s' = cfg s"
    if run: "and_then (fetchToDataURL env resource) (\<lambda>dataURL.
               overlays_loop env vis ots (r\<lparr>overlays := set_property (overlays r) k dataURL\<rparr>)) s
             = (s', outcome)" for resource
  proof (cases "fetch_blob_readAsDataURL env resource")
    case (Inl e)
    with run have "s' = s\<lparr>events := events s @ [Fetch resource]\<rparr>"
      by (simp add: and_then_def fetchToDataURL_def)
    then have "events s' = events s @ map Fetch [resource] \<and> cfg s' = cfg s" by simp
    then show ?thesis by blast
  next
    case (Inr d)
    let ?s1 = "s\<lparr>events := events s @ [Fetch resource]\<rparr>"
    from Inr run have
      "overlays_loop env vis ots (r\<lparr>overlays := set_property (overlays r) k d\<rparr>) ?s1 = (s', outcome)"
      by (simp add: and_then_def fetchToDataURL_def)
    from Cons.IH [OF this] obtain fs where
      "events s' = events ?s1 @ map Fetch fs" "cfg s' = cfg s" by auto
    then have "events s' = events s @ map Fetch (resource # fs) \<and> cfg s' = cfg s" by simp
    then show ?thesis by blast
  qed
  show ?case
  proof (cases "get_property env vis k")
    case Undefined
    with Cons show ?thesis by simp
  next
    case (Str res)
    show ?thesis
    proof (cases "res = []")
      case True
      with Str Cons show ?thesis by simp
    next
      case False
      with Str Cons.prems show ?thesis by (intro fetched [of res]) simp
    qed
  next
    case (Inherited member)
    with Cons.prems show ?thesis by (intro fetched [of member]) simp
  qed
qed

lemma getViewableImages_frame:
  assumes "getViewableImages env f u d vis ots s = (s', outcome)"
  shows "\<exists>fs. events s' = events s @ map Fetch fs \<and> cfg s' = cfg s"
proof (cases "f \<noteq> None \<and> truthy u")
  case False
  with assms obtain r0 where "overlays_loop env vis ots r0 s = (s', outcome)"
    unfolding getViewableImages_unfold by auto
  then show ?thesis by (rule overlays_loop_frame)
next
  case True
  let ?s1 = "s\<lparr>events := events s @ [Fetch (the u)]\<rparr>"
  show ?thesis
  proof (cases "fetch_blob_readAsDataURL env (the u)")
    case (Inl e)
    with assms True have "s' = ?s1"
      unfolding getViewableImages_unfold by simp
    then have "events s' = events s @ map Fetch [the u] \<and> cfg s' = cfg s" by simp
    then show ?thesis by blast
  next
    case (Inr dataURL)
    with assms True obtain r0 where "overlays_loop env vis ots r0 ?s1 = (s', outcome)"
      unfolding getViewableImages_unfold by simp
    from overlays_loop_frame [OF this] obtain fs where
      "events s' = events ?s1 @ map Fetch fs" "cfg s' = cfg s" by auto
    then have "events s' = events s @ map Fetch (the u # fs) \<and> cfg s' = cfg s" by simp
    then show ?thesis by blast
  qed
qed

lemma reports_of_append: "reports_of (xs @ ys) = reports_of xs @ reports_of ys"
  by (induction xs rule: reports_of.induct) simp_all



lemma reports_of_Fetch: "reports_of (map Fetch fs) = []"
  by (induction fs) simp_all



lemma facely_reports:
  assumes "facely env imageFile progress s = (s', Inr res)"
  shows "reports_of (events s') = reports_of (events s) @
           [reportProgress 0 6 ''setting up...'' False,
            reportProgress 0 6 ''setting up complete!'' True,
            reportProgress 1 6 ''uploading...'' False,
            reportProgress 1 6 ''uploading complete!'' True,
            reportProgress 2 6 ''generating preview...'' False,
            reportProgress 2 6 ''preview generated!'' True,
            reportProgress 3 6 ''making predictions...'' False,
            reportProgress 3 6 ''predictions complete!'' True,
            reportProgress 4 6 ''generating 3D objects...'' False,
            reportProgress 4 6 ''3D objects generated!'' True,
            reportProgress 5 6 ''starting depth estimation...'' False,
            reportProgress 5 6 ''depth estimation complete!'' True,
            reportProgress 6 6 ''reviewing process...'' False,
            reportProgress 6 6 ''process complete!'' True]"
  using assms unfolding facely_def Let_def
  apply (simp only: and_then_Inr invoke_Inr external_Inr external_config_Inr
      assign_scaleFactor_Inr returns_Inr)
  apply (elim exE conjE)
  apply (drule getViewableImages_frame)
  apply (elim exE conjE)
  apply (simp add: reports_of_append reports_of_Fetch)
  done

lemma mock_run:
  "snd (facely mock_env () (Some mock_progress) \<lparr> events = [], cfg = config \<rparr>)
     = Inr \<lparr> canvas = ''canvas'', scene = (), texturedMesh = ''uvFaceMesh'',
             image' = \<lparr> baseImage = Some ''data:blob:portrait'',
                        displacementMap = Some ''data:image/png,depth'',
                        overlays = [''combinedImage'' \<mapsto> ''data:blob:combined'',
                                    ''keypointsImage'' \<mapsto> ''data:blob:keypoints'',
                                    ''triangulationImage'' \<mapsto> ''data:blob:triangulation'',
                                    ''outerRingImage'' \<mapsto> ''data:blob:outerRing''] \<rparr>,
             verticesMesh = ''vertices'', edgesMesh = ''edges'', facesMesh = ''faces'' \<rparr>"
  by (simp add: facely_def Let_def and_then_def invoke_def external_def external_config_def
        assign_scaleFactor_def returns_def getViewableImages_def fetchToDataURL_def
        get_property_def set_property_def
        mock_env_def mock_progress_def mock_visualizations_def overlayTypes_def)

text \<open>
  C4. In every successful run the progress callback is invoked exactly 14 times: a "started"
  and a "complete" report for each of the six stages 0 to 5, in this order, and then the two
  reports of the trailing review phase.
\<close>

theorem facely_progress_invocations:
  assumes "facely env imageFile progress \<lparr> events = [], cfg = c \<rparr> = (s', Inr res)"
  shows "reports_of (events s') =
           concat (map (\<lambda>(i, started, completed).
                          [reportProgress i 6 started False, reportProgress i 6 completed True])
                     [(0, ''setting up...'', ''setting up complete!''),
                      (1, ''uploading...'', ''uploading complete!''),
                      (2, ''generating preview...'', ''preview generated!''),
                      (3, ''making predictions...'', ''predictions complete!''),
                      (4, ''generating 3D objects...'', ''3D objects generated!''),
                      (5, ''starting depth estimation...'', ''depth estimation complete!'')])
           @ [reportProgress 6 6 ''reviewing process...'' False,
              reportProgress 6 6 ''process complete!'' True]
         \<and> length (reports_of (events s')) = 14"
  using facely_reports [OF assms] by simp

theorem facely_progress_invocations_witness:
  "(\<exists>res. snd (facely mock_env () (Some mock_progress) \<lparr> events = [], cfg = config \<rparr>) = Inr res)
   \<and> length (reports_of (events (fst (facely mock_env () (Some mock_progress)
                                          \<lparr> events = [], cfg = config \<rparr>)))) = 14"
proof -
  let ?run = "facely mock_env () (Some mock_progress) \<lparr> events = [], cfg = config \<rparr>"
  from mock_run obtain res where run: "?run = (fst ?run, Inr res)"
    by (metis prod.collapse)
  from facely_progress_invocations [OF run] run show ?thesis
    by (metis snd_conv)
qed

lemma stage_labels_of_six:
  "map (\<lambda>i. stage_label (i div 2) 6) [0..<14]
     = [''0/6'', ''0/6'', ''1/6'', ''1/6'', ''2/6'', ''2/6'', ''3/6'', ''3/6'',
        ''4/6'', ''4/6'', ''5/6'', ''5/6'', ''6/6'', ''6/6'']"
  by (simp add: upt_rec stage_label_def show_nat.simps digit_char_def)

text \<open>
  C2. Over the reports of one successful run, the stage indices never decrease. The reports
  carry, in order, the stage labels 0/6, 0/6, 1/6, 1/6, ..., 6/6, 6/6: the report at position
  \<open>i\<close> carries stage index \<open>i div 2\<close>, and of any two reports the earlier one carries a stage
  index that is at most the later one's, whichever way a label is read as an index and a
  total. The percents are 0, 8, 17, 25, 33, 42, 50, 58, 67, 75, 83, 92, 99, 100: the last
  report carries percent 100, and every report before it carries a percent of at most 99.
\<close>

theorem facely_progress_order:
  assumes "facely env imageFile progress \<lparr> events = [], cfg = c \<rparr> = (s', Inr res)"
  shows "map stage (reports_of (events s'))
           = [''0/6'', ''0/6'', ''1/6'', ''1/6'', ''2/6'', ''2/6'', ''3/6'', ''3/6'',
              ''4/6'', ''4/6'', ''5/6'', ''5/6'', ''6/6'', ''6/6'']
         \<and> map percent (reports_of (events s'))
           = [Finite 0, Finite 8, Finite 17, Finite 25, Finite 33, Finite 42, Finite 50,
              Finite 58, Finite 67, Finite 75, Finite 83, Finite 92, Finite 99, Finite 100]
         \<and> (\<forall>i < length (reports_of (events s')).
               stage (reports_of (events s') ! i) = stage_label (i div 2) 6)
         \<and> (\<forall>i j a b t t'. i \<le> j \<and> j < length (reports_of (events s'))
               \<and> stage (reports_of (events s') ! i) = stage_label a t
               \<and> stage (reports_of (events s') ! j) = stage_label b t' \<longrightarrow> a \<le> b)
         \<and> reports_of (events s') \<noteq> []
         \<and> percent (last (reports_of (events s'))) = Finite 100
         \<and> (\<forall>r \<in> set (butlast (reports_of (events s'))). \<exists>p. percent r = Finite p \<and> p \<le> 99)"
proof -
  let ?rs = "reports_of (events s')"
  let ?labels = "[''0/6'', ''0/6'', ''1/6'', ''1/6'', ''2/6'', ''2/6'', ''3/6'', ''3/6'',
                  ''4/6'', ''4/6'', ''5/6'', ''5/6'', ''6/6'', ''6/6'']"
  note rs = facely_reports [OF assms]
  have stages: "map stage ?rs = ?labels"
    unfolding rs by (simp add: reportProgress_def stage_label_def show_nat.simps digit_char_def)
  have percents: "map percent ?rs
           = [Finite 0, Finite 8, Finite 17, Finite 25, Finite 33, Finite 42, Finite 50,
              Finite 58, Finite 67, Finite 75, Finite 83, Finite 92, Finite 99, Finite 100]"
    unfolding rs by (simp add: reportProgress_def double_eval)
  have len: "length ?rs = 14"
    unfolding rs by simp
  have position: "stage (?rs ! i) = stage_label (i div 2) 6" if "i < length ?rs" for i
  proof -
    from that len have i: "i < 14" by simp
    have "stage (?rs ! i) = map stage ?rs ! i"
      using that by (simp only: nth_map)
    also have "\<dots> = map (\<lambda>i. stage_label (i div 2) 6) [0..<14] ! i"
      by (simp only: stages stage_labels_of_six)
    also have "\<dots> = stage_label (i div 2) 6"
      using i by (simp only: nth_map length_upt) simp
    finally show ?thesis .
  qed
  have order: "a \<le> b"
    if "i \<le> j \<and> j < length ?rs \<and> stage (?rs ! i) = stage_label a t
        \<and> stage (?rs ! j) = stage_label b t'" for i j a b t t'
  proof -
    from that have "i < length ?rs" "j < length ?rs" by simp_all
    with position [of i] position [of j] that
    have "stage_label a t = stage_label (i div 2) 6" "stage_label b t' = stage_label (j div 2) 6"
      by simp_all
    then have "a = i div 2" "b = j div 2"
      by (simp_all add: stage_label_inj)
    with that show ?thesis by (simp add: div_le_mono)
  qed
  have nonempty: "?rs \<noteq> []"
    using len by auto
  have last: "percent (last ?rs) = Finite 100"
    unfolding rs by (simp add: reportProgress_def)
  have others: "\<forall>r \<in> set (butlast ?rs). \<exists>p. percent r = Finite p \<and> p \<le> 99"
    unfolding rs by (simp add: reportProgress_def double_eval)
  from stages percents position order nonempty last others show ?thesis
    by blast
qed

theorem facely_progress_order_witness:
  "(\<exists>res. snd (facely mock_env () (Some mock_progress) \<lparr> events = [], cfg = config \<rparr>) = Inr res)
   \<and> map stage (reports_of (events (fst (facely mock_env () (Some mock_progress)
                                            \<lparr> events = [], cfg = config \<rparr>))))
       = [''0/6'', ''0/6'', ''1/6'', ''1/6'', ''2/6'', ''2/6'', ''3/6'', ''3/6'',
          ''4/6'', ''4/6'', ''5/6'', ''5/6'', ''6/6'', ''6/6'']
   \<and> (0::nat) \<le> 13
   \<and> 13 < length (reports_of (events (fst (facely mock_env () (Some mock_progress)
                                              \<lparr> events = [], cfg = config \<rparr>))))
   \<and> percent (last (reports_of (events (fst (facely mock_env () (Some mock_progress)
                                              \<lparr> events = [], cfg = config \<rparr>))))) = Finite 100"
proof -
  let ?run = "facely mock_env () (Some mock_progress) \<lparr> events = [], cfg = config \<rparr>"
  from mock_run have ex: "\<exists>res. snd ?run = Inr res" by blast
  then obtain res where run: "?run = (fst ?run, Inr res)"
    by (metis prod.collapse)
  have len: "length (reports_of (events (fst ?run))) = 14"
    using facely_reports [OF run] by simp
  have stages: "map stage (reports_of (events (fst ?run)))
       = [''0/6'', ''0/6'', ''1/6'', ''1/6'', ''2/6'', ''2/6'', ''3/6'', ''3/6'',
          ''4/6'', ''4/6'', ''5/6'', ''5/6'', ''6/6'', ''6/6'']"
    using facely_progress_order [OF run] by blast
  have last: "percent (last (reports_of (events (fst ?run)))) = Finite 100"
    using facely_progress_order [OF run] by blast
  from ex len stages last show ?thesis by simp
qed














text \<open>
  C8. The progress callback is documented as optional, but a run without one stops at its
  first report: calling the missing callback throws a TypeError before any stage has run.
\<close>

theorem facely_without_callback:
  "facely env imageFile None s = (s, Inl (TypeError ''progress is not a function''))"
  by (simp add: facely_def and_then_def invoke_def)

text \<open>
  C3. When the call of the prediction adapter is reached and rejects, the run ends there
  with exactly that rejection: the rejected call is the last thing the run does, so no
  progress report follows it, the only external calls made are those up to the prediction,
  nothing is fetched, and neither mesh building nor depth estimation is ever called.
\<close>

theorem facely_prediction_rejected:
  assumes run: "facely env imageFile progress \<lparr> events = [], cfg = c \<rparr> = (s', outcome)"
    and url: "createObjectURL env imageFile = Inr imageUrl"
    and img: "loadImage env imageUrl = Inr img"
    and imp: "import_handlePredictions env = Inr handlePredictions"
    and rej: "handlePredictions imageUrl
                (c\<lparr>scaleFactor := js_div targetSceneWidth (of_nat (width img))\<rparr>) = Inl e"
    and reached: "HandlePredictions \<in> set (calls_of (events s'))"
  shows "outcome = Inl e
         \<and> calls_of (events s')
             = [CreateThreeDScene, CreateObjectURL, LoadImage, ImportPredictions, HandlePredictions]
         \<and> fetches_of (events s') = []
         \<and> last (events s')
             = Call HandlePredictions
                 (Some (c\<lparr>scaleFactor := js_div targetSceneWidth (of_nat (width img))\<rparr>))
         \<and> reports_of (events s')
             = [reportProgress 0 6 ''setting up...'' False,
                reportProgress 0 6 ''setting up complete!'' True,
                reportProgress 1 6 ''uploading...'' False,
                reportProgress 1 6 ''uploading complete!'' True,
                reportProgress 2 6 ''generating preview...'' False,
                reportProgress 2 6 ''preview generated!'' True,
                reportProgress 3 6 ''making predictions...'' False]"
  using assms unfolding facely_def Let_def
  by (auto simp: and_then_def invoke_def external_def external_config_def assign_scaleFactor_def
           split: option.splits sum.splits prod.splits)

theorem facely_prediction_rejected_witness:
  "HandlePredictions \<in> set (calls_of (events (fst
      (facely (mock_env\<lparr>import_handlePredictions := Inr (\<lambda>_ _. Inl (Rejection ''model failed''))\<rparr>)
         () (Some mock_progress) \<lparr> events = [], cfg = config \<rparr>))))
   \<and> snd (facely (mock_env\<lparr>import_handlePredictions := Inr (\<lambda>_ _. Inl (Rejection ''model failed''))\<rparr>)
           () (Some mock_progress) \<lparr> events = [], cfg = config \<rparr>)
       = Inl (Rejection ''model failed'')"
proof -
  let ?hp = "\<lambda>(_::string) (_::config). Inl (Rejection ''model failed'') :: string thrown + visualizations"
  let ?env = "mock_env\<lparr>import_handlePredictions := Inr ?hp\<rparr>"
  let ?run = "facely ?env () (Some mock_progress) \<lparr> events = [], cfg = config \<rparr>"
  have run: "?run = (fst ?run, snd ?run)" by simp
  have url: "createObjectURL ?env () = Inr ''blob:portrait''"
    by (simp add: mock_env_def)
  have img: "loadImage ?env ''blob:portrait'' = Inr \<lparr> width = 512, height = 512 \<rparr>"
    by (simp add: mock_env_def)
  have imp: "import_handlePredictions ?env = Inr ?hp"
    by simp
  have rej: "?hp ''blob:portrait''
               (config\<lparr>scaleFactor := js_div targetSceneWidth (of_nat (width \<lparr> width = 512, height = 512 \<rparr>))\<rparr>)
             = Inl (Rejection ''model failed'')"
    by simp
  have reached: "HandlePredictions \<in> set (calls_of (events (fst ?run)))"
    by (simp add: facely_def Let_def and_then_def invoke_def external_def external_config_def
          assign_scaleFactor_def mock_env_def mock_progress_def)
  from facely_prediction_rejected [OF run url img imp rej reached] reached
  show ?thesis by blast
qed

section \<open>The fields of a progress report\<close>

text \<open>
  C7 as stated does not hold: a report has no completion flag, and two reports that differ
  only in the flag can be the same record.
\<close>

theorem reportProgress_no_flag_counterexample:
  "reportProgress 0 6 ''setting up...'' False
     = \<lparr> message = ''setting up...'', percent = Finite 0, stage = ''0/6'' \<rparr>
   \<and> reportProgress 0 1000 ''working'' False = reportProgress 0 1000 ''working'' True"
  by (simp add: reportProgress_def double_eval stage_label_def show_nat.simps digit_char_def)

text \<open>
  C7, amended. Every progress report is a record of three fields: the message it was given,
  a percent, and the stage label \<open>index/total\<close>, from which the stage index and the total are
  read back without ambiguity. Every report a successful run delivers to the callback is built
  this way, with total 6.
\<close>

theorem progress_report_fields:
  "reportProgress s t m c
     = \<lparr> message = m, percent = percent (reportProgress s t m c), stage = stage_label s t \<rparr>
   \<and> (stage_label s t = stage_label s' t' \<longrightarrow> s = s' \<and> t = t')
   \<and> (facely env imageFile progress \<lparr> events = [], cfg = cf \<rparr> = (st', Inr res) \<longrightarrow>
        (\<forall>r \<in> set (reports_of (events st')). \<exists>i msg flag. r = reportProgress i 6 msg flag))"
proof (intro conjI impI)
  show "reportProgress s t m c
     = \<lparr> message = m, percent = percent (reportProgress s t m c), stage = stage_label s t \<rparr>"
    by (simp add: reportProgress_def Let_def)
  show "s = s'" "t = t'" if "stage_label s t = stage_label s' t'"
    using stage_label_inj [OF that] by simp_all
  show "\<forall>r \<in> set (reports_of (events st')). \<exists>i msg flag. r = reportProgress i 6 msg flag"
    if "facely env imageFile progress \<lparr> events = [], cfg = cf \<rparr> = (st', Inr res)"
    unfolding facely_reports [OF that] by (simp del: One_nat_def) blast
qed

theorem progress_report_fields_witness:
  "stage_label 3 6 = stage_label 3 6
   \<and> (\<exists>res. snd (facely mock_env () (Some mock_progress) \<lparr> events = [], cfg = config \<rparr>) = Inr res)
   \<and> (\<exists>i msg flag.
         last (reports_of (events (fst (facely mock_env () (Some mock_progress)
                                          \<lparr> events = [], cfg = config \<rparr>))))
           = reportProgress i 6 msg flag)"
proof -
  let ?run = "facely mock_env () (Some mock_progress) \<lparr> events = [], cfg = config \<rparr>"
  from mock_run have ex: "\<exists>res. snd ?run = Inr res" by blast
  then obtain res where run: "?run = (fst ?run, Inr res)"
    by (metis prod.collapse)
  have "reports_of (events (fst ?run)) \<noteq> []"
    using facely_reports [OF run] by simp
  then have "last (reports_of (events (fst ?run))) \<in> set (reports_of (events (fst ?run)))"
    by (rule last_in_set)
  with progress_report_fields [of 3 6 "[]" False 3 6 mock_env "()" "Some mock_progress" config
         "fst ?run" res] run
  have "\<exists>i msg flag. last (reports_of (events (fst ?run))) = reportProgress i 6 msg flag"
    by blast
  with ex show ?thesis by blast
qed

end
